theory Spec2Isabelle
  imports Main
begin

unbundle bit_operations_syntax

section \<open>Python values and built-ins used by the container classes\<close>

text \<open>
  The classes \<open>HBC86\<close> and \<open>HBC96\<close> (\<open>hbctool/hbc/hbc86/__init__.py\<close>,
  \<open>hbctool/hbc/hbc96/__init__.py\<close>) work on Python lists of integers and on
  dictionaries. Python integers are unbounded (\<open>int\<close>); every exception the code can raise
  is a value of \<open>error\<close>.
\<close>

datatype error =
    AssertionError
  | IndexError
  | KeyError
  | ValueError
  | StructError
  | UnicodeEncodeError
  | TranslatorError

text \<open>
  The position a Python list of length \<open>len\<close> gives an index: a negative index counts
  from the end, and an index outside \<open>[-len, len)\<close> has no position (IndexError).
\<close>

definition py_position :: "nat \<Rightarrow> int \<Rightarrow> nat option" where
  "py_position len i =
     (if 0 \<le> i \<and> i < int len then Some (nat i)
      else if - int len \<le> i \<and> i < 0 then Some (nat (int len + i))
      else None)"

text \<open>Python list indexing \<open>xs[i]\<close> and item assignment \<open>xs[i] = v\<close>.\<close>

definition py_index :: "'a list \<Rightarrow> int \<Rightarrow> error + 'a" where
  "py_index xs i =
     (case py_position (length xs) i of None \<Rightarrow> Inl IndexError | Some j \<Rightarrow> Inr (xs ! j))"

definition py_setitem :: "'a list \<Rightarrow> int \<Rightarrow> 'a \<Rightarrow> error + 'a list" where
  "py_setitem xs i v =
     (case py_position (length xs) i of None \<Rightarrow> Inl IndexError | Some j \<Rightarrow> Inr (xs[j := v]))"

text \<open>Python slicing \<open>xs[a:b]\<close>: negative bounds count from the end, all bounds are clamped.\<close>

definition py_clamp :: "nat \<Rightarrow> int \<Rightarrow> nat" where
  "py_clamp n i = (let j = (if i < 0 then int n + i else i) in nat (min (int n) (max 0 j)))"

definition py_slice :: "'a list \<Rightarrow> int \<Rightarrow> int \<Rightarrow> 'a list" where
  "py_slice xs a b =
     (let lo = py_clamp (length xs) a; hi = py_clamp (length xs) b
      in take (hi - lo) (drop lo xs))"

text \<open>\<open>bytes(xs)\<close> of a list of integers raises ValueError unless every element is a byte.\<close>

definition py_bytes :: "int list \<Rightarrow> error + int list" where
  "py_bytes xs = (if list_all (\<lambda>x. 0 \<le> x \<and> x < 256) xs then Inr xs else Inl ValueError)"

text \<open>
  \<open>struct.unpack("<H", b)[0]\<close> and \<open>struct.unpack("<L", b)[0]\<close>: the little-endian
  unsigned value of exactly \<open>n\<close> bytes, \<open>struct.error\<close> on any other length.
\<close>

fun le_value :: "int list \<Rightarrow> int" where
  "le_value [] = 0"
| "le_value (b # bs) = b + 256 * le_value bs"

definition unpack_le :: "nat \<Rightarrow> int list \<Rightarrow> error + int" where
  "unpack_le n bs = (if length bs = n then Inr (le_value bs) else Inl StructError)"

section \<open>Tag constants\<close>

definition NullTag :: int where "NullTag = 0"
definition TrueTag :: int where "TrueTag = push_bit 4 1"
definition FalseTag :: int where "FalseTag = push_bit 4 2"
definition NumberTag :: int where "NumberTag = push_bit 4 3"
definition LongStringTag :: int where "LongStringTag = push_bit 4 4"
definition ShortStringTag :: int where "ShortStringTag = push_bit 4 5"
definition ByteStringTag :: int where "ByteStringTag = push_bit 4 6"
definition IntegerTag :: int where "IntegerTag = push_bit 4 7"
definition TagMask :: int where "TagMask = 0x70"

section \<open>The container\<close>

text \<open>
  The parsed object is a dictionary with a fixed set of keys, modelled as a record; of
  its file header, the five counts and sizes the two classes read are kept. A function
  header is a dictionary whose keys the code tests for presence
  (\<open>"flags" in functionHeader\<close>, \<open>"small" in functionHeader\<close>): its integer entries are
  a map from key names, and the nested dictionary under \<open>"small"\<close> is an optional map.
  The headers of a container are values here: no two entries of \<open>functionHeaders\<close> are
  one shared dictionary. The development is about a container whose \<open>obj\<close> has been
  set (\<open>getObj\<close> asserts it).
\<close>

record file_header =
  functionCount :: int
  stringCount :: int
  arrayBufferSize :: int
  objKeyBufferSize :: int
  objValueBufferSize :: int

type_synonym pydict = "string \<rightharpoonup> int"

record function_header =
  entries :: pydict
  small :: "pydict option"

record string_table_entry =
  isUTF16 :: int
  ste_offset :: int
  ste_length :: int

record string_overflow_entry =
  soe_offset :: int
  soe_length :: int

record hbc =
  header :: file_header
  functionHeaders :: "function_header list"
  stringTableEntries :: "string_table_entry list"
  stringTableOverflowEntries :: "string_overflow_entry list"
  stringStorage :: "int list"
  instOffset :: int
  inst :: "int list"
  arrayBuffer :: "int list"
  objKeyBuffer :: "int list"
  objValueBuffer :: "int list"

section \<open>Serialized-literal buffer accessors\<close>

text \<open>
  A decoded literal. The eight payload bytes of a \<open>NumberTag\<close> element are kept as they
  are read: the floating-point value \<open>unpack("<d", ...)\<close> makes of them is not modelled.
\<close>

datatype slp_value = VInt int | VNumber "int list" | VNone | VBool bool

text \<open>\<open>_checkBufferTag(buf, iid)\<close>: the pair (element count, kind bits).\<close>

definition checkBufferTag :: "int list \<Rightarrow> int \<Rightarrow> error + (int \<times> int)" where
  "checkBufferTag buf iid =
     (case py_index buf iid of
        Inl e \<Rightarrow> Inl e
      | Inr keyTag \<Rightarrow>
          if keyTag AND 0x80 \<noteq> 0 then
            (case py_index buf (iid + 1) of
               Inl e \<Rightarrow> Inl e
             | Inr b \<Rightarrow> Inr (push_bit 8 (keyTag AND 0x0f) OR b, keyTag AND TagMask))
          else Inr (keyTag AND 0x0f, keyTag AND TagMask))"

text \<open>
  \<open>unpack(fmt, bytes(buf[start:start+n]))[0]\<close> for the integer formats: \<open>bytes\<close> first,
  then the length check of \<open>unpack\<close>.
\<close>

definition unpack_at :: "nat \<Rightarrow> int list \<Rightarrow> int \<Rightarrow> error + int" where
  "unpack_at n buf start =
     (case py_bytes (py_slice buf start (start + int n)) of
        Inl e \<Rightarrow> Inl e
      | Inr bs \<Rightarrow> unpack_le n bs)"

definition unpack_double_at :: "int list \<Rightarrow> int \<Rightarrow> error + int list" where
  "unpack_double_at buf start =
     (case py_bytes (py_slice buf start (start + 8)) of
        Inl e \<Rightarrow> Inl e
      | Inr bs \<Rightarrow> if length bs = 8 then Inr bs else Inl StructError)"

text \<open>\<open>_SLPToString(tag, buf, iid, ind)\<close>: the triple (kind label, value, next index).\<close>

definition SLPToString :: "int \<Rightarrow> int list \<Rightarrow> int \<Rightarrow> int \<Rightarrow> error + (string \<times> slp_value \<times> int)" where
  "SLPToString tag buf iid ind =
     (let start = iid + ind in
      if tag = ByteStringTag then
        (case py_index buf start of
           Inl e \<Rightarrow> Inl e
         | Inr v \<Rightarrow> Inr (''String'', VInt v, ind + 1))
      else if tag = ShortStringTag then
        (case unpack_at 2 buf start of
           Inl e \<Rightarrow> Inl e
         | Inr v \<Rightarrow> Inr (''String'', VInt v, ind + 2))
      else if tag = LongStringTag then
        (case unpack_at 4 buf start of
           Inl e \<Rightarrow> Inl e
         | Inr v \<Rightarrow> Inr (''String'', VInt v, ind + 4))
      else if tag = NumberTag then
        (case unpack_double_at buf start of
           Inl e \<Rightarrow> Inl e
         | Inr bs \<Rightarrow> Inr (''Number'', VNumber bs, ind + 8))
      else if tag = IntegerTag then
        (case unpack_at 4 buf start of
           Inl e \<Rightarrow> Inl e
         | Inr v \<Rightarrow> Inr (''Integer'', VInt v, ind + 4))
      else if tag = NullTag then Inr (''Null'', VNone, ind)
      else if tag = TrueTag then Inr (''Boolean'', VBool True, ind)
      else if tag = FalseTag then Inr (''Boolean'', VBool False, ind)
      else Inr (''Empty'', VNone, ind))"

text \<open>
  The loop \<open>for _ in range(tag[0])\<close> shared by \<open>getArray\<close>, \<open>getObjKey\<close> and
  \<open>getObjValue\<close>; \<open>t\<close> starts as \<open>None\<close> and the list as \<open>[]\<close>.
\<close>

fun slp_loop ::
  "nat \<Rightarrow> int \<Rightarrow> int list \<Rightarrow> int \<Rightarrow> int \<Rightarrow> string option \<Rightarrow> slp_value list
     \<Rightarrow> error + (string option \<times> slp_value list)" where
  "slp_loop 0 tag buf iid ind t arr = Inr (t, arr)"
| "slp_loop (Suc n) tag buf iid ind t arr =
     (case SLPToString tag buf iid ind of
        Inl e \<Rightarrow> Inl e
      | Inr (t', val, ind') \<Rightarrow> slp_loop n tag buf iid ind' (Some t') (arr @ [val]))"

text \<open>The first payload index the accessors choose: \<open>ind = 2 if tag[0] > 0x0f else 1\<close>.\<close>

definition first_ind :: "int \<Rightarrow> int" where
  "first_ind cnt = (if cnt > 0x0f then 2 else 1)"

text \<open>The body the three accessors share after their bounds assertion.\<close>

definition slp_group :: "int list \<Rightarrow> int \<Rightarrow> error + (string option \<times> slp_value list)" where
  "slp_group buf iid =
     (case checkBufferTag buf iid of
        Inl e \<Rightarrow> Inl e
      | Inr (cnt, kind) \<Rightarrow> slp_loop (nat cnt) kind buf iid (first_ind cnt) None [])"

definition getArray :: "hbc \<Rightarrow> int \<Rightarrow> error + (string option \<times> slp_value list)" where
  "getArray s aid =
     (if aid \<ge> 0 \<and> aid < arrayBufferSize (header s) then slp_group (arrayBuffer s) aid
      else Inl AssertionError)"

definition getObjKey :: "hbc \<Rightarrow> int \<Rightarrow> error + (string option \<times> slp_value list)" where
  "getObjKey s kid =
     (if kid \<ge> 0 \<and> kid < objKeyBufferSize (header s) then slp_group (objKeyBuffer s) kid
      else Inl AssertionError)"

definition getObjValue :: "hbc \<Rightarrow> int \<Rightarrow> error + (string option \<times> slp_value list)" where
  "getObjValue s vid =
     (if vid \<ge> 0 \<and> vid < objValueBufferSize (header s) then slp_group (objValueBuffer s) vid
      else Inl AssertionError)"

text \<open>The three accessors, by name.\<close>

datatype accessor = Array | ObjKey | ObjValue

definition slp_get :: "accessor \<Rightarrow> hbc \<Rightarrow> int \<Rightarrow> error + (string option \<times> slp_value list)" where
  "slp_get a = (case a of Array \<Rightarrow> getArray | ObjKey \<Rightarrow> getObjKey | ObjValue \<Rightarrow> getObjValue)"

definition slp_buffer :: "accessor \<Rightarrow> hbc \<Rightarrow> int list" where
  "slp_buffer a = (case a of Array \<Rightarrow> arrayBuffer | ObjKey \<Rightarrow> objKeyBuffer | ObjValue \<Rightarrow> objValueBuffer)"

definition kind_labels :: "string list" where
  "kind_labels = [''String'', ''Number'', ''Integer'', ''Null'', ''Boolean'', ''Empty'']"

section \<open>Collaborators that are not among the sources\<close>

text \<open>
  Modelled from the spec: \<open>memcpy\<close> of \<open>hbctool.util\<close> is imported by both classes and is
  not among the sources. The spec calls it an "in-place byte-range copy" (section 2) that
  writes \<open>length\<close> elements of \<open>src\<close> over \<open>dest\<close> from \<open>start\<close> on, "replacing
  exactly \<open>new\<close> bytes" (section 4.1, step 7). It is modelled as the element-wise loop
  \<open>for i in range(length): dest[start + i] = src[i]\<close>, each element access with Python's
  list semantics; the result is the error raised, if any, and the contents of \<open>dest\<close>
  when the loop stops.
\<close>

fun memcpy_from :: "nat \<Rightarrow> nat \<Rightarrow> int list \<Rightarrow> int list \<Rightarrow> int \<Rightarrow> error option \<times> int list" where
  "memcpy_from 0 i dest src start = (None, dest)"
| "memcpy_from (Suc k) i dest src start =
     (case py_index src (int i) of
        Inl e \<Rightarrow> (Some e, dest)
      | Inr b \<Rightarrow>
          (case py_setitem dest (start + int i) b of
             Inl e \<Rightarrow> (Some e, dest)
           | Inr dest' \<Rightarrow> memcpy_from k (Suc i) dest' src start))"

definition memcpy :: "int list \<Rightarrow> int list \<Rightarrow> int \<Rightarrow> nat \<Rightarrow> error option \<times> int list" where
  "memcpy dest src start n = memcpy_from n 0 dest src start"

text \<open>
  The assembler \<open>assemble\<close> of the translator module and the constant \<open>INVALID_LENGTH\<close>
  of the parser module are not among the sources either: both are parameters of the
  operations below. The assembler is a function from instructions to bytes that may raise.
\<close>

section \<open>Python strings\<close>

text \<open>
  A Python \<open>str\<close> is a sequence of code points, and \<open>len\<close> counts code points.
  \<open>str.encode("utf-8")\<close> writes one to four bytes per code point and raises
  UnicodeEncodeError on a surrogate.
\<close>

type_synonym pystr = "nat list"

definition utf8_char :: "nat \<Rightarrow> error + int list" where
  "utf8_char c =
     (if c < 0x80 then Inr [int c]
      else if c < 0x800 then Inr [int (0xC0 + c div 64), int (0x80 + c mod 64)]
      else if 0xD800 \<le> c \<and> c \<le> 0xDFFF then Inl UnicodeEncodeError
      else if c < 0x10000 then
        Inr [int (0xE0 + c div 4096), int (0x80 + (c div 64) mod 64), int (0x80 + c mod 64)]
      else if c < 0x110000 then
        Inr [int (0xF0 + c div 262144), int (0x80 + (c div 4096) mod 64),
             int (0x80 + (c div 64) mod 64), int (0x80 + c mod 64)]
      else Inl UnicodeEncodeError)"

fun utf8_encode :: "pystr \<Rightarrow> error + int list" where
  "utf8_encode [] = Inr []"
| "utf8_encode (c # cs) =
     (case utf8_char c of
        Inl e \<Rightarrow> Inl e
      | Inr bs \<Rightarrow> (case utf8_encode cs of Inl e \<Rightarrow> Inl e | Inr rest \<Rightarrow> Inr (bs @ rest)))"

text \<open>
  \<open>bytes.fromhex\<close>: ASCII whitespace is skipped before a byte, a byte is two hexadecimal
  digits, anything else raises ValueError.
\<close>

definition hex_digit :: "nat \<Rightarrow> nat option" where
  "hex_digit c =
     (if 48 \<le> c \<and> c \<le> 57 then Some (c - 48)
      else if 97 \<le> c \<and> c \<le> 102 then Some (c - 87)
      else if 65 \<le> c \<and> c \<le> 70 then Some (c - 55)
      else None)"

definition is_space :: "nat \<Rightarrow> bool" where
  "is_space c = (c = 32 \<or> (9 \<le> c \<and> c \<le> 13))"

fun fromhex :: "pystr \<Rightarrow> error + int list" where
  "fromhex [] = Inr []"
| "fromhex [c] = (if is_space c then Inr [] else Inl ValueError)"
| "fromhex (c # d # ds) =
     (if is_space c then fromhex (d # ds)
      else
        (case (hex_digit c, hex_digit d) of
           (Some hi, Some lo) \<Rightarrow>
             (case fromhex ds of Inl e \<Rightarrow> Inl e | Inr rest \<Rightarrow> Inr (int (16 * hi + lo) # rest))
         | _ \<Rightarrow> Inl ValueError))"

section \<open>String mutator\<close>

text \<open>
  The outcome of a mutator: \<open>Inr s'\<close> when it returns, leaving the container as \<open>s'\<close>;
  \<open>Inl (e, s')\<close> when it raises \<open>e\<close>, leaving the container as \<open>s'\<close>.
\<close>

type_synonym outcome = "(error \<times> hbc) + hbc"

definition state_after :: "outcome \<Rightarrow> hbc" where
  "state_after r = (case r of Inl (e, s') \<Rightarrow> s' | Inr s' \<Rightarrow> s')"

definition returns :: "outcome \<Rightarrow> bool" where
  "returns r = (case r of Inl _ \<Rightarrow> False | Inr _ \<Rightarrow> True)"

text \<open>
  The slot \<open>(offset, length)\<close> of a string-table entry, through the overflow table when
  the entry's length is the sentinel (\<open>getString\<close> and \<open>setString\<close> resolve it alike).
\<close>

definition resolve_slot :: "int \<Rightarrow> hbc \<Rightarrow> string_table_entry \<Rightarrow> error + (int \<times> int)" where
  "resolve_slot INVALID_LENGTH s ent =
     (if ste_length ent \<ge> INVALID_LENGTH then
        (case py_index (stringTableOverflowEntries s) (ste_offset ent) of
           Inl e \<Rightarrow> Inl e
         | Inr ov \<Rightarrow> Inr (soe_offset ov, soe_length ov))
      else Inr (ste_offset ent, ste_length ent))"

text \<open>The bytes to store and the length that is checked: \<open>(s, l)\<close> of \<open>setString\<close>.\<close>

definition string_bytes :: "int \<Rightarrow> pystr \<Rightarrow> error + (int list \<times> int)" where
  "string_bytes utf16 val =
     (if utf16 \<noteq> 0 then
        (case fromhex val of
           Inl e \<Rightarrow> Inl e
         | Inr bs \<Rightarrow> Inr (bs, int (length bs) div 2))
      else
        (case utf8_encode val of
           Inl e \<Rightarrow> Inl e
         | Inr bs \<Rightarrow> Inr (bs, int (length val))))"

definition setString :: "int \<Rightarrow> hbc \<Rightarrow> int \<Rightarrow> pystr \<Rightarrow> outcome" where
  "setString INVALID_LENGTH s sid val =
     (if \<not> (sid \<ge> 0 \<and> sid < stringCount (header s)) then Inl (AssertionError, s)
      else
        (case py_index (stringTableEntries s) sid of
           Inl e \<Rightarrow> Inl (e, s)
         | Inr ent \<Rightarrow>
             (case resolve_slot INVALID_LENGTH s ent of
                Inl e \<Rightarrow> Inl (e, s)
              | Inr (off, len) \<Rightarrow>
                  (case string_bytes (isUTF16 ent) val of
                     Inl e \<Rightarrow> Inl (e, s)
                   | Inr (bs, l) \<Rightarrow>
                       if \<not> l \<le> len then Inl (AssertionError, s)
                       else
                         (case memcpy (stringStorage s) bs off (length bs) of
                            (None, st) \<Rightarrow> Inr (s\<lparr>stringStorage := st\<rparr>)
                          | (Some e, st) \<Rightarrow> Inl (e, s\<lparr>stringStorage := st\<rparr>))))))"

section \<open>Function mutator\<close>

text \<open>
  The payload \<open>func = (functionName, paramCount, registerCount, symbolCount, insts, _)\<close>.
  Its sixth component is never read. \<open>insts\<close> is a list of bytes when the call passes
  \<open>disasm=False\<close> and a list of instructions for the assembler when it passes
  \<open>disasm=True\<close>: the constructor of \<open>code\<close> records which of the two calls is made.
\<close>

datatype 'i code = Raw "int list" | Insts 'i

record 'i func =
  functionName :: pystr
  paramCount :: int
  registerCount :: int
  symbolCount :: int
  insts :: "'i code"

text \<open>\<open>bc = insts; if disasm: bc = assemble(insts)\<close>.\<close>

definition bytecode_of :: "('i \<Rightarrow> error + int list) \<Rightarrow> 'i code \<Rightarrow> error + int list" where
  "bytecode_of assemble c = (case c of Raw bc \<Rightarrow> Inr bc | Insts i \<Rightarrow> assemble i)"

text \<open>The three assignments at the head of \<open>setFunction\<close>.\<close>

definition set_params :: "function_header \<Rightarrow> 'i func \<Rightarrow> function_header" where
  "set_params h f =
     h\<lparr>entries := (entries h)(''paramCount'' \<mapsto> paramCount f,
                               ''frameSize'' \<mapsto> registerCount f,
                               ''environmentSize'' \<mapsto> symbolCount f)\<rparr>"

definition max_small_size :: int where
  "max_small_size = push_bit 15 1 - 1"

definition overflowed_flag :: int where
  "overflowed_flag = push_bit 5 1"

text \<open>
  The loop that fills the backup: \<open>for key in [...]: if key in functionHeader:
  functionHeader["small"][key] = functionHeader[key]\<close>.
\<close>

definition snapshot_keys :: "string list" where
  "snapshot_keys =
     [''offset'', ''paramCount'', ''bytecodeSizeInBytes'', ''functionName'', ''infoOffset'',
      ''frameSize'', ''environmentSize'', ''highestReadCacheIndex'',
      ''highestWriteCacheIndex'', ''flags'']"

fun copy_keys :: "string list \<Rightarrow> pydict \<Rightarrow> pydict \<Rightarrow> pydict" where
  "copy_keys [] h sm = sm"
| "copy_keys (k # ks) h sm =
     copy_keys ks h (case h k of None \<Rightarrow> sm | Some v \<Rightarrow> sm(k \<mapsto> v))"

text \<open>
  The branch \<open>new_size > max_small_size\<close> of \<open>HBC86.setFunction\<close>: \<open>flags\<close> is created
  as 0 when absent, the overflow bit is set, the backup is made when there is none, and
  the size is stored.
\<close>

definition overflow86 :: "function_header \<Rightarrow> int \<Rightarrow> int \<Rightarrow> function_header" where
  "overflow86 h original_size new_size =
     (let fl = (case entries h ''flags'' of None \<Rightarrow> 0 | Some f \<Rightarrow> f) OR overflowed_flag;
          h1 = h\<lparr>entries := (entries h)(''flags'' \<mapsto> fl)\<rparr>;
          h2 = (case small h1 of
                  None \<Rightarrow>
                    h1\<lparr>small := Some ((copy_keys snapshot_keys (entries h1) Map.empty)
                                        (''bytecodeSizeInBytes'' \<mapsto> min original_size max_small_size,
                                         ''flags'' \<mapsto> fl))\<rparr>
                | Some sm \<Rightarrow> h1)
      in h2\<lparr>entries := (entries h2)(''bytecodeSizeInBytes'' \<mapsto> new_size)\<rparr>)"

text \<open>The branch \<open>else\<close> of \<open>HBC86.setFunction\<close>, with its inner test.\<close>

definition normal86 :: "function_header \<Rightarrow> int \<Rightarrow> int \<Rightarrow> function_header" where
  "normal86 h original_size new_size =
     (if new_size \<le> original_size \<or> original_size \<le> max_small_size then
        (let h1 = h\<lparr>entries := (entries h)(''bytecodeSizeInBytes'' \<mapsto> new_size)\<rparr>;
             h2 = (case entries h1 ''flags'' of
                     None \<Rightarrow> h1
                   | Some f \<Rightarrow> h1\<lparr>entries := (entries h1)(''flags'' \<mapsto> f AND NOT overflowed_flag)\<rparr>)
         in if small h2 \<noteq> None \<and> new_size \<le> max_small_size then h2\<lparr>small := None\<rparr> else h2)
      else h\<lparr>entries := (entries h)(''bytecodeSizeInBytes'' \<mapsto> new_size)\<rparr>)"

text \<open>\<open>inst.extend([0] * extension_needed)\<close> when the write ends past the buffer.\<close>

definition extend_inst :: "int list \<Rightarrow> int \<Rightarrow> int \<Rightarrow> int list" where
  "extend_inst buf start new_size =
     (if start + new_size > int (length buf)
      then buf @ replicate (nat (start + new_size - int (length buf))) 0
      else buf)"

text \<open>The last statement of both setters, and the container it leaves.\<close>

definition copy_bytecode :: "hbc \<Rightarrow> nat \<Rightarrow> function_header \<Rightarrow> int list \<Rightarrow> int list \<Rightarrow> int \<Rightarrow> outcome" where
  "copy_bytecode s i h buf bc start =
     (case memcpy buf bc start (length bc) of
        (None, buf') \<Rightarrow> Inr (s\<lparr>functionHeaders := (functionHeaders s)[i := h], inst := buf'\<rparr>)
      | (Some e, buf') \<Rightarrow>
          Inl (e, s\<lparr>functionHeaders := (functionHeaders s)[i := h], inst := buf'\<rparr>))"

definition setFunction86 :: "('i \<Rightarrow> error + int list) \<Rightarrow> hbc \<Rightarrow> int \<Rightarrow> 'i func \<Rightarrow> outcome" where
  "setFunction86 assemble s fid f =
     (if \<not> (fid \<ge> 0 \<and> fid < functionCount (header s)) then Inl (AssertionError, s)
      else
        (case py_index (functionHeaders s) fid of
           Inl e \<Rightarrow> Inl (e, s)
         | Inr h0 \<Rightarrow>
             (let h = set_params h0 f;
                  s1 = s\<lparr>functionHeaders := (functionHeaders s)[nat fid := h]\<rparr>
              in case entries h ''offset'' of
                   None \<Rightarrow> Inl (KeyError, s1)
                 | Some offset \<Rightarrow>
                     (case entries h ''bytecodeSizeInBytes'' of
                        None \<Rightarrow> Inl (KeyError, s1)
                      | Some bytecodeSizeInBytes \<Rightarrow>
                          (let start = offset - instOffset s in
                           case bytecode_of assemble (insts f) of
                             Inl e \<Rightarrow> Inl (e, s1)
                           | Inr bc \<Rightarrow>
                               (let original_size = bytecodeSizeInBytes;
                                    new_size = int (length bc);
                                    buf = extend_inst (inst s) start new_size;
                                    h' = (if new_size > max_small_size
                                          then overflow86 h original_size new_size
                                          else normal86 h original_size new_size)
                                in copy_bytecode s (nat fid) h' buf bc start))))))"

text \<open>
  \<open>HBC96.setFunction\<close> extends the buffer only when the new code is longer than the
  stored size, makes the same overflow bookkeeping when the code is longer than 32767
  bytes, and otherwise only stores the size.
\<close>

definition overflow96 :: "function_header \<Rightarrow> int \<Rightarrow> int \<Rightarrow> function_header" where
  "overflow96 h bytecodeSizeInBytes new_size =
     (let fl = (case entries h ''flags'' of None \<Rightarrow> 0 | Some f \<Rightarrow> f) OR overflowed_flag;
          h1 = h\<lparr>entries := (entries h)(''flags'' \<mapsto> fl)\<rparr>;
          h2 = (case small h1 of
                  None \<Rightarrow>
                    h1\<lparr>small := Some ((copy_keys snapshot_keys (entries h1) Map.empty)
                                        (''bytecodeSizeInBytes'' \<mapsto> min bytecodeSizeInBytes (push_bit 15 1 - 1),
                                         ''flags'' \<mapsto> fl))\<rparr>
                | Some sm \<Rightarrow> h1)
      in h2\<lparr>entries := (entries h2)(''bytecodeSizeInBytes'' \<mapsto> new_size)\<rparr>)"

definition setFunction96 :: "('i \<Rightarrow> error + int list) \<Rightarrow> hbc \<Rightarrow> int \<Rightarrow> 'i func \<Rightarrow> outcome" where
  "setFunction96 assemble s fid f =
     (if \<not> (fid \<ge> 0 \<and> fid < functionCount (header s)) then Inl (AssertionError, s)
      else
        (case py_index (functionHeaders s) fid of
           Inl e \<Rightarrow> Inl (e, s)
         | Inr h0 \<Rightarrow>
             (let h = set_params h0 f;
                  s1 = s\<lparr>functionHeaders := (functionHeaders s)[nat fid := h]\<rparr>
              in case entries h ''offset'' of
                   None \<Rightarrow> Inl (KeyError, s1)
                 | Some offset \<Rightarrow>
                     (case entries h ''bytecodeSizeInBytes'' of
                        None \<Rightarrow> Inl (KeyError, s1)
                      | Some bytecodeSizeInBytes \<Rightarrow>
                          (let start = offset - instOffset s in
                           case bytecode_of assemble (insts f) of
                             Inl e \<Rightarrow> Inl (e, s1)
                           | Inr bc \<Rightarrow>
                               (let new_size = int (length bc);
                                    buf = (if new_size > bytecodeSizeInBytes
                                           then extend_inst (inst s) start new_size
                                           else inst s);
                                    h' = (if new_size > push_bit 15 1 - 1
                                          then overflow96 h bytecodeSizeInBytes new_size
                                          else h\<lparr>entries := (entries h)(''bytecodeSizeInBytes'' \<mapsto> new_size)\<rparr>)
                                in copy_bytecode s (nat fid) h' buf bc start))))))"

text \<open>The two format versions, and the setter of each.\<close>

datatype version = V86 | V96

definition setFunction :: "version \<Rightarrow> ('i \<Rightarrow> error + int list) \<Rightarrow> hbc \<Rightarrow> int \<Rightarrow> 'i func \<Rightarrow> outcome" where
  "setFunction v = (case v of V86 \<Rightarrow> setFunction86 | V96 \<Rightarrow> setFunction96)"

text \<open>
  What the two setters make of the header after its three counts are stored, and of the
  instruction buffer before the copy, for a stored size \<open>original\<close> and a new size
  \<open>new_size\<close>: the names under which the proofs treat both versions at once.
\<close>

definition new_header :: "version \<Rightarrow> function_header \<Rightarrow> int \<Rightarrow> int \<Rightarrow> function_header" where
  "new_header v h original new_size =
     (case v of
        V86 \<Rightarrow>
          if new_size > max_small_size then overflow86 h original new_size
          else normal86 h original new_size
      | V96 \<Rightarrow>
          if new_size > push_bit 15 1 - 1 then overflow96 h original new_size
          else h\<lparr>entries := (entries h)(''bytecodeSizeInBytes'' \<mapsto> new_size)\<rparr>)"

definition new_buffer :: "version \<Rightarrow> int list \<Rightarrow> int \<Rightarrow> int \<Rightarrow> int \<Rightarrow> int list" where
  "new_buffer v buf start original new_size =
     (case v of
        V86 \<Rightarrow> extend_inst buf start new_size
      | V96 \<Rightarrow> if new_size > original then extend_inst buf start new_size else buf)"

section \<open>Invariants and edit sequences\<close>

text \<open>The test \<open>flags & (1 << 5) != 0\<close> on a header; a header without flags is not overflowed.\<close>

definition overflowed :: "function_header \<Rightarrow> bool" where
  "overflowed h = (case entries h ''flags'' of None \<Rightarrow> False | Some f \<Rightarrow> f AND overflowed_flag \<noteq> 0)"

text \<open>
  The overflow bit is set exactly when the backup is present, and a backup holds a size
  of at most 32767 and the flags of its header.
\<close>

definition small_ok :: "function_header \<Rightarrow> pydict \<Rightarrow> bool" where
  "small_ok h sm =
     ((case sm ''bytecodeSizeInBytes'' of None \<Rightarrow> False | Some b \<Rightarrow> b \<le> 32767) \<and>
      (case sm ''flags'' of None \<Rightarrow> False | Some g \<Rightarrow> entries h ''flags'' = Some g))"

definition header_consistent :: "function_header \<Rightarrow> bool" where
  "header_consistent h =
     (case small h of None \<Rightarrow> \<not> overflowed h | Some sm \<Rightarrow> overflowed h \<and> small_ok h sm)"

definition inv_overflow :: "hbc \<Rightarrow> bool" where
  "inv_overflow s = list_all header_consistent (functionHeaders s)"

text \<open>
  The byte range of a function lies within the instruction buffer:
  \<open>offset - instOffset\<close> is in \<open>[0, len(inst) - bytecodeSizeInBytes]\<close>.
\<close>

definition within_inst :: "hbc \<Rightarrow> function_header \<Rightarrow> bool" where
  "within_inst s h =
     (case entries h ''offset'' of
        None \<Rightarrow> True
      | Some off \<Rightarrow>
          (case entries h ''bytecodeSizeInBytes'' of
             None \<Rightarrow> True
           | Some sz \<Rightarrow> instOffset s \<le> off \<and> off - instOffset s + sz \<le> int (length (inst s))))"

definition inv_range :: "hbc \<Rightarrow> bool" where
  "inv_range s = list_all (within_inst s) (functionHeaders s)"

text \<open>
  A function that can be edited: the id is in range, its header exists and has an offset
  and a size.
\<close>

definition has_function :: "hbc \<Rightarrow> int \<Rightarrow> bool" where
  "has_function s fid =
     (0 \<le> fid \<and> fid < functionCount (header s) \<and> fid < int (length (functionHeaders s)) \<and>
      entries (functionHeaders s ! nat fid) ''offset'' \<noteq> None \<and>
      entries (functionHeaders s ! nat fid) ''bytecodeSizeInBytes'' \<noteq> None)"

text \<open>
  A sequence of mutator calls. A caller may catch the exception of a failed call and go
  on, so each call hands the container it leaves to the next, whether it returned or raised.
\<close>

datatype 'i edit = SetFunction int "'i func" | SetString int pystr

definition apply_edit :: "version \<Rightarrow> ('i \<Rightarrow> error + int list) \<Rightarrow> int \<Rightarrow> hbc \<Rightarrow> 'i edit \<Rightarrow> hbc" where
  "apply_edit v assemble INVALID_LENGTH s e =
     (case e of
        SetFunction fid f \<Rightarrow> state_after (setFunction v assemble s fid f)
      | SetString sid val \<Rightarrow> state_after (setString INVALID_LENGTH s sid val))"

fun run_edits :: "version \<Rightarrow> ('i \<Rightarrow> error + int list) \<Rightarrow> int \<Rightarrow> hbc \<Rightarrow> 'i edit list \<Rightarrow> hbc" where
  "run_edits v assemble INVALID_LENGTH s [] = s"
| "run_edits v assemble INVALID_LENGTH s (e # es) =
     run_edits v assemble INVALID_LENGTH (apply_edit v assemble INVALID_LENGTH s e) es"

section \<open>Concrete containers\<close>

text \<open>A container that holds nothing but the given array buffer.\<close>

definition array_container :: "int list \<Rightarrow> hbc" where
  "array_container buf =
     \<lparr> header = \<lparr> functionCount = 0, stringCount = 0, arrayBufferSize = int (length buf),
                  objKeyBufferSize = 0, objValueBufferSize = 0 \<rparr>,
       functionHeaders = [], stringTableEntries = [], stringTableOverflowEntries = [],
       stringStorage = [], instOffset = 0, inst = [],
       arrayBuffer = buf, objKeyBuffer = [], objValueBuffer = [] \<rparr>"

text \<open>The header and the container of the fixture of \<open>run_tests.py\<close> (\<open>setUp\<close>).\<close>

definition mock_header :: function_header where
  "mock_header =
     \<lparr> entries = [''offset'' \<mapsto> 0x1000, ''paramCount'' \<mapsto> 1, ''frameSize'' \<mapsto> 2,
                  ''environmentSize'' \<mapsto> 0, ''bytecodeSizeInBytes'' \<mapsto> 100,
                  ''functionName'' \<mapsto> 0, ''infoOffset'' \<mapsto> 0,
                  ''highestReadCacheIndex'' \<mapsto> 0, ''highestWriteCacheIndex'' \<mapsto> 0,
                  ''flags'' \<mapsto> 0],
       small = None \<rparr>"

definition mock_obj :: hbc where
  "mock_obj =
     \<lparr> header = \<lparr> functionCount = 1, stringCount = 1, arrayBufferSize = 0,
                  objKeyBufferSize = 0, objValueBufferSize = 0 \<rparr>,
       functionHeaders = [mock_header],
       stringTableEntries = [\<lparr> isUTF16 = 0, ste_offset = 0, ste_length = 4 \<rparr>],
       stringTableOverflowEntries = [],
       stringStorage = [116, 101, 115, 116],
       instOffset = 0x1000, inst = replicate 50000 0,
       arrayBuffer = [], objKeyBuffer = [], objValueBuffer = [] \<rparr>"

text \<open>A payload with the counts of the fixture's header and the given raw bytes.\<close>

definition raw_payload :: "int list \<Rightarrow> unit func" where
  "raw_payload bc =
     \<lparr> functionName = [], paramCount = 1, registerCount = 2, symbolCount = 0, insts = Raw bc \<rparr>"

text \<open>An assembler that raises on every input, and a payload that goes through it.\<close>

definition failing_assemble :: "unit \<Rightarrow> error + int list" where
  "failing_assemble i = Inl TranslatorError"

definition asm_payload :: "unit func" where
  "asm_payload =
     \<lparr> functionName = [], paramCount = 7, registerCount = 8, symbolCount = 9, insts = Insts () \<rparr>"

text \<open>
  The fixture after \<open>setFunction\<close> with 40000 bytes \<open>0xFF\<close>, the first step of
  \<open>test_overflow_flag_clearing\<close>: the header is overflowed and has its backup.
\<close>

definition overflowed_header :: function_header where
  "overflowed_header =
     \<lparr> entries = (entries mock_header)(''flags'' \<mapsto> 32, ''bytecodeSizeInBytes'' \<mapsto> 40000),
       small = Some ((entries mock_header)(''flags'' \<mapsto> 32)) \<rparr>"

definition overflowed_obj :: hbc where
  "overflowed_obj =
     mock_obj\<lparr>functionHeaders := [overflowed_header],
              inst := replicate 40000 0xFF @ replicate 10000 0\<rparr>"

text \<open>A container with two functions of 4 bytes each in a buffer of 8 bytes.\<close>

definition two_functions :: hbc where
  "two_functions =
     mock_obj\<lparr>header := (header mock_obj)\<lparr>functionCount := 2\<rparr>,
              functionHeaders :=
                [mock_header\<lparr>entries := (entries mock_header)(''bytecodeSizeInBytes'' \<mapsto> 4)\<rparr>,
                 mock_header\<lparr>entries := (entries mock_header)(''offset'' \<mapsto> 0x1004,
                                                               ''bytecodeSizeInBytes'' \<mapsto> 4,
                                                               ''functionName'' \<mapsto> 1)\<rparr>],
              inst := [1, 2, 3, 4, 5, 6, 7, 8]\<rparr>"


section \<open>Properties of the serialized-literal accessors\<close>

lemmas tag_defs =
  NullTag_def TrueTag_def FalseTag_def NumberTag_def LongStringTag_def
  ShortStringTag_def ByteStringTag_def IntegerTag_def TagMask_def

lemma SLPToString_label:
  assumes "SLPToString tag buf iid ind = Inr (t, val, ind')"
  shows "t \<in> set kind_labels"
  using assms
  by (auto simp add: SLPToString_def Let_def kind_labels_def split: if_splits sum.splits)

lemma slp_loop_result:
  assumes "slp_loop n tag buf iid ind t arr = Inr (t', vals)"
  shows "length vals = length arr + n \<and>
         (if n = 0 then t' = t else t' \<in> Some ` set kind_labels)"
  using assms
proof (induction n arbitrary: ind t arr)
  case 0
  then show ?case by simp
next
  case (Suc n)
  from Suc.prems obtain l val ind' where
    step: "SLPToString tag buf iid ind = Inr (l, val, ind')" and
    rest: "slp_loop n tag buf iid ind' (Some l) (arr @ [val]) = Inr (t', vals)"
    by (auto split: sum.splits)
  from Suc.IH [OF rest] SLPToString_label [OF step] show ?case
    by (auto split: if_splits)
qed

lemma slp_get_group:
  assumes "slp_get a s iid = Inr r"
  shows "slp_group (slp_buffer a s) iid = Inr r"
  using assms
  by (cases a)
     (auto simp add: slp_get_def slp_buffer_def getArray_def getObjKey_def getObjValue_def
           split: if_splits)

text \<open>
  With the extension bit clear the count is the low nibble and the payload starts one
  byte after the tag; with the extension bit set the count is the twelve-bit value, and
  the payload starts two bytes after the tag when that count is above fifteen.
\<close>

lemma checkBufferTag_short:
  assumes "py_index buf iid = Inr keyTag" and "keyTag AND 0x80 = 0"
  shows "checkBufferTag buf iid = Inr (keyTag AND 0x0f, keyTag AND TagMask) \<and>
         first_ind (keyTag AND 0x0f) = 1"
proof -
  have "keyTag AND 15 \<le> 15" by (rule AND_upper2) simp
  then have "\<not> keyTag AND 15 > 15" by linarith
  with assms show ?thesis by (simp add: checkBufferTag_def first_ind_def)
qed

lemma checkBufferTag_extended:
  assumes "py_index buf iid = Inr keyTag" and "keyTag AND 0x80 \<noteq> 0"
    and "py_index buf (iid + 1) = Inr b"
  shows "checkBufferTag buf iid = Inr (push_bit 8 (keyTag AND 0x0f) OR b, keyTag AND TagMask) \<and>
         first_ind (push_bit 8 (keyTag AND 0x0f) OR b) =
           (if push_bit 8 (keyTag AND 0x0f) OR b > 15 then 2 else 1)"
  using assms by (simp add: checkBufferTag_def first_ind_def)

text \<open>
  C3 (as the code has it). The tag byte \<open>0xE0\<close> has the extension bit set, kind
  \<open>ByteStringTag\<close> and low nibble 0; with the next byte \<open>0x02\<close> the count is 2. The
  accessor then starts decoding one byte after the tag, not two: it reads the count byte
  again as the first payload byte and returns the indices 2 and 7, where a decoder that
  skipped both header bytes would return 7 and 9.
\<close>

theorem C3_extended_tag_small_count:
  "checkBufferTag [0xE0, 0x02, 0x07, 0x09] 0 = Inr (2, ByteStringTag) \<and>
   first_ind 2 = 1 \<and>
   getArray (array_container [0xE0, 0x02, 0x07, 0x09]) 0 = Inr (Some ''String'', [VInt 2, VInt 7])"
  by code_simp

text \<open>
  C6 (counterexample). On the array buffer of the scenario the tag byte \<open>0x77\<close> has the
  kind bits \<open>0x70\<close>, which is \<open>IntegerTag\<close> with four-byte payloads, and count 7: the
  fourth element finds two bytes left and \<open>unpack\<close> raises, so \<open>getArray(0)\<close> does not
  return the seven string indices.
\<close>

theorem C6_tag_0x77_counterexample:
  "checkBufferTag [0x77, 0x01, 0x00, 0x02, 0x00, 0x03, 0x00, 0x04, 0x00, 0x05, 0x00, 0x06,
                   0x00, 0x07, 0x00] 0 = Inr (7, IntegerTag) \<and>
   getArray (array_container [0x77, 0x01, 0x00, 0x02, 0x00, 0x03, 0x00, 0x04, 0x00, 0x05,
                              0x00, 0x06, 0x00, 0x07, 0x00]) 0 = Inl StructError"
  by code_simp

text \<open>
  C6 (amended). With the tag byte \<open>0x57\<close> (\<open>ShortStringTag\<close>, count 7, no extension) in
  front of the same fourteen payload bytes, \<open>getArray(0)\<close> returns the label
  \<open>"String"\<close> and the indices 1 to 7.
\<close>

theorem C6_short_string_group:
  "getArray (array_container [0x57, 0x01, 0x00, 0x02, 0x00, 0x03, 0x00, 0x04, 0x00, 0x05,
                              0x00, 0x06, 0x00, 0x07, 0x00]) 0 =
     Inr (Some ''String'', [VInt 1, VInt 2, VInt 3, VInt 4, VInt 5, VInt 6, VInt 7])"
  by code_simp

text \<open>
  C8 (counterexample). The tag byte \<open>0x00\<close> is \<open>NullTag\<close> with count 0: the loop body
  never runs, and the label returned is \<open>None\<close>, which is none of the six strings.
\<close>

theorem C8_empty_group_counterexample:
  "getArray (array_container [0x00]) 0 = Inr (None, []) \<and>
   None \<notin> Some ` set kind_labels"
  by code_simp

text \<open>
  C8 (amended). A successful call of \<open>getArray\<close>, \<open>getObjKey\<close> or \<open>getObjValue\<close> returns
  as many values as the count of the group; when the count is at least one, the label
  is one of the six strings "String", "Number", "Integer", "Null", "Boolean", "Empty";
  when the count is zero, the label is \<open>None\<close>.
\<close>

theorem C8_kind_label:
  assumes "slp_get a s iid = Inr (t, vals)"
  shows "\<exists>cnt kind. checkBufferTag (slp_buffer a s) iid = Inr (cnt, kind) \<and>
           length vals = nat cnt \<and>
           (if cnt \<le> 0 then t = None else t \<in> Some ` set kind_labels)"
proof -
  from assms have group: "slp_group (slp_buffer a s) iid = Inr (t, vals)"
    by (rule slp_get_group)
  then obtain cnt kind where
    tag: "checkBufferTag (slp_buffer a s) iid = Inr (cnt, kind)" and
    loop: "slp_loop (nat cnt) kind (slp_buffer a s) iid (first_ind cnt) None [] = Inr (t, vals)"
    by (auto simp add: slp_group_def split: sum.splits)
  from slp_loop_result [OF loop] have "length vals = nat cnt"
    and "if cnt \<le> 0 then t = None else t \<in> Some ` set kind_labels"
    by (auto split: if_splits)
  with tag show ?thesis by blast
qed

text \<open>
  C8 (amended) on an object-key buffer with the group \<open>0x62, 0x05, 0x09\<close>
  (\<open>ByteStringTag\<close>, count 2).
\<close>

theorem C8_kind_label_witness:
  "slp_get ObjKey (mock_obj\<lparr>header := (header mock_obj)\<lparr>objKeyBufferSize := 3\<rparr>,
                           objKeyBuffer := [0x62, 0x05, 0x09]\<rparr>) 0
     = Inr (Some ''String'', [VInt 5, VInt 9]) \<and>
   (\<exists>cnt kind. checkBufferTag [0x62, 0x05, 0x09] 0 = Inr (cnt, kind) \<and>
      length [VInt 5, VInt 9] = nat cnt \<and>
      (if cnt \<le> 0 then Some ''String'' = None else Some ''String'' \<in> Some ` set kind_labels))"
proof -
  have run: "slp_get ObjKey (mock_obj\<lparr>header := (header mock_obj)\<lparr>objKeyBufferSize := 3\<rparr>,
                                    objKeyBuffer := [0x62, 0x05, 0x09]\<rparr>) 0
               = Inr (Some ''String'', [VInt 5, VInt 9])"
    by (simp add: slp_get_def getObjKey_def mock_obj_def slp_group_def checkBufferTag_def
          py_index_def py_position_def tag_defs first_ind_def SLPToString_def numeral_2_eq_2)
  from C8_kind_label [OF run] run show ?thesis
    by (simp add: slp_buffer_def)
qed

section \<open>The copy into a buffer\<close>

text \<open>
  A copy whose destination range lies within the buffer replaces exactly that range; every
  copy keeps the length of the buffer; and a copy made a second time changes nothing.
\<close>

lemma py_index_nonneg:
  assumes "0 \<le> i"
  shows "py_index xs i = (if i < int (length xs) then Inr (xs ! nat i) else Inl IndexError)"
  using assms by (simp add: py_index_def py_position_def)

lemma py_setitem_length:
  "py_setitem xs i v = Inr ys \<Longrightarrow> length ys = length xs"
  by (auto simp add: py_setitem_def split: option.splits)

lemma memcpy_from_length:
  "length (snd (memcpy_from k i dest src start)) = length dest"
proof (induction k arbitrary: i dest)
  case 0
  then show ?case by simp
next
  case (Suc k)
  then show ?case
    by (auto simp add: py_setitem_length split: sum.splits)
qed

lemma memcpy_length: "length (snd (memcpy dest src start n)) = length dest"
  by (simp add: memcpy_def memcpy_from_length)

lemma memcpy_from_in_range:
  assumes "0 \<le> start" and "nat start + i + k \<le> length dest" and "i + k \<le> length src"
  shows "memcpy_from k i dest src start =
           (None, take (nat start + i) dest @ take k (drop i src) @ drop (nat start + i + k) dest)"
  using assms
proof (induction k arbitrary: i dest)
  case 0
  then show ?case by simp
next
  case (Suc k)
  let ?p = "nat start + i"
  have rd: "py_index src (int i) = Inr (src ! i)"
    using Suc.prems by (simp add: py_index_def py_position_def)
  have pos: "py_position (length dest) (start + int i) = Some ?p"
    using Suc.prems by (auto simp add: py_position_def nat_add_distrib)
  have wr: "py_setitem dest (start + int i) (src ! i) = Inr (dest[?p := src ! i])"
    by (simp add: py_setitem_def pos)
  have "memcpy_from (Suc k) i dest src start = memcpy_from k (Suc i) (dest[?p := src ! i]) src start"
    by (simp add: rd wr)
  also have "\<dots> = (None, take (nat start + Suc i) (dest[?p := src ! i]) @ take k (drop (Suc i) src) @
                      drop (nat start + Suc i + k) (dest[?p := src ! i]))"
    using Suc.prems by (intro Suc.IH) auto
  also have "take (nat start + Suc i) (dest[?p := src ! i]) = take ?p dest @ [src ! i]"
    using Suc.prems by (simp add: take_Suc_conv_app_nth)
  also have "drop (nat start + Suc i + k) (dest[?p := src ! i]) = drop (?p + Suc k) dest"
    by simp
  also have "(take ?p dest @ [src ! i]) @ take k (drop (Suc i) src) @ drop (?p + Suc k) dest
               = take ?p dest @ take (Suc k) (drop i src) @ drop (?p + Suc k) dest"
    using Suc.prems by (simp add: Cons_nth_drop_Suc [symmetric])
  finally show ?case by simp
qed

lemma memcpy_in_range:
  assumes "0 \<le> start" and "nat start + length src \<le> length dest"
  shows "memcpy dest src start (length src) =
           (None, take (nat start) dest @ src @ drop (nat start + length src) dest)"
  using memcpy_from_in_range [of start 0 "length src" dest src] assms
  by (simp add: memcpy_def)

lemma memcpy_from_absorb:
  assumes "length d' = length d"
    and "\<forall>j < length d. d' ! j = d ! j \<or> d' ! j = snd (memcpy_from k i d src start) ! j"
  shows "memcpy_from k i d' src start = memcpy_from k i d src start"
  using assms
proof (induction k arbitrary: i d d')
  case 0
  then show ?case by (simp add: list_eq_iff_nth_eq)
next
  case (Suc k)
  show ?case
  proof (cases "py_index src (int i)")
    case (Inl e)
    with Suc.prems show ?thesis by (simp add: list_eq_iff_nth_eq)
  next
    case (Inr b)
    show ?thesis
    proof (cases "py_position (length d) (start + int i)")
      case None
      with Inr Suc.prems show ?thesis by (simp add: py_setitem_def list_eq_iff_nth_eq)
    next
      case (Some p)
      then have p: "p < length d" by (auto simp add: py_position_def split: if_splits)
      have step: "memcpy_from (Suc k) i d src start = memcpy_from k (Suc i) (d[p := b]) src start"
        by (simp add: Inr Some py_setitem_def)
      have step': "memcpy_from (Suc k) i d' src start = memcpy_from k (Suc i) (d'[p := b]) src start"
        by (simp add: Inr Some py_setitem_def Suc.prems(1))
      have "memcpy_from k (Suc i) (d'[p := b]) src start = memcpy_from k (Suc i) (d[p := b]) src start"
      proof (rule Suc.IH)
        show "length (d'[p := b]) = length (d[p := b])" using Suc.prems(1) by simp
        show "\<forall>j<length (d[p := b]). d'[p := b] ! j = d[p := b] ! j \<or>
                d'[p := b] ! j = snd (memcpy_from k (Suc i) (d[p := b]) src start) ! j"
          using Suc.prems p unfolding step by (auto simp add: nth_list_update)
      qed
      with step step' show ?thesis by simp
    qed
  qed
qed

lemma memcpy_idem:
  "memcpy (snd (memcpy dest src start n)) src start n = memcpy dest src start n"
  unfolding memcpy_def
  by (rule memcpy_from_absorb) (simp_all add: memcpy_from_length)

section \<open>The overflow bit and the header bookkeeping\<close>

lemma flag_bit: "(f AND overflowed_flag \<noteq> 0) = bit (f::int) 5"
  using and_exp_eq_0_iff_not_bit [of f 5] by (simp add: overflowed_flag_def)

lemma flag_or_idem: "f AND overflowed_flag \<noteq> 0 \<Longrightarrow> f OR overflowed_flag = f"
proof -
  assume "f AND overflowed_flag \<noteq> 0"
  then have b: "bit f 5" by (simp add: flag_bit)
  have "f OR push_bit 5 1 = f"
    by (rule bit_eqI)
       (auto simp add: bit_or_iff bit_push_bit_iff bit_1_iff b simp del: push_bit_numeral push_bit_of_1)
  then show ?thesis by (simp add: overflowed_flag_def)
qed

lemma flag_or: "(f OR overflowed_flag) AND overflowed_flag \<noteq> 0"
  unfolding overflowed_flag_def by (simp add: bit.conj_disj_distrib2 or_eq_0_iff)

lemma flag_clear: "(f AND NOT overflowed_flag) AND overflowed_flag = 0"
  unfolding overflowed_flag_def by (simp add: and.assoc)

lemma flag_clear_idem: "(g AND NOT overflowed_flag) AND NOT overflowed_flag = g AND NOT overflowed_flag"
  by (simp add: and.assoc)

lemma max_small_size_eq: "max_small_size = 32767"
  by (simp add: max_small_size_def)

lemma overflow96_eq: "overflow96 = overflow86"
  by (intro ext) (simp add: overflow96_def overflow86_def max_small_size_def Let_def split: option.splits)

lemma set_params_keys:
  "k \<notin> {''paramCount'', ''frameSize'', ''environmentSize''} \<Longrightarrow>
     entries (set_params h f) k = entries h k"
  by (simp add: set_params_def)

lemma set_params_small: "small (set_params h f) = small h"
  by (simp add: set_params_def)

lemma set_params_idem: "set_params (set_params h f) f = set_params h f"
  by (simp add: set_params_def)

lemma set_params_absorbed:
  assumes "entries h ''paramCount'' = Some (paramCount f)"
    and "entries h ''frameSize'' = Some (registerCount f)"
    and "entries h ''environmentSize'' = Some (symbolCount f)"
  shows "set_params h f = h"
proof -
  have "(entries h)(''paramCount'' \<mapsto> paramCount f, ''frameSize'' \<mapsto> registerCount f,
                    ''environmentSize'' \<mapsto> symbolCount f) = entries h"
    using assms by (auto simp add: fun_eq_iff)
  then show ?thesis by (simp add: set_params_def)
qed

lemma copy_keys_eq:
  "copy_keys ks h sm = (\<lambda>k. if k \<in> set ks then (case h k of None \<Rightarrow> sm k | Some v \<Rightarrow> Some v) else sm k)"
proof (induction ks arbitrary: sm)
  case Nil
  then show ?case by simp
next
  case (Cons k ks)
  show ?case
    by (rule ext) (auto simp add: Cons.IH split: option.splits)
qed

lemma copy_keys_restrict: "copy_keys ks h Map.empty = h |` set ks"
  by (rule ext) (simp add: copy_keys_eq restrict_map_def split: option.splits)

lemma new_header_size:
  "entries (new_header v h original n) ''bytecodeSizeInBytes'' = Some n"
  by (cases v)
     (auto simp add: new_header_def overflow86_def overflow96_def normal86_def Let_def
        split: option.splits)

lemma new_header_other:
  assumes "k \<noteq> ''flags''" and "k \<noteq> ''bytecodeSizeInBytes''"
  shows "entries (new_header v h original n) k = entries h k"
  using assms
  by (cases v)
     (auto simp add: new_header_def overflow86_def overflow96_def normal86_def Let_def
        split: option.splits)

lemma new_header_overflow:
  assumes "n > 32767"
  shows "new_header v h original n = overflow86 h original n"
  using assms by (cases v) (simp_all add: new_header_def overflow96_eq max_small_size_eq)

lemma new_header_normal86:
  assumes "n \<le> 32767"
  shows "new_header V86 h original n =
           \<lparr> entries = (case entries h ''flags'' of
                          None \<Rightarrow> (entries h)(''bytecodeSizeInBytes'' \<mapsto> n)
                        | Some f \<Rightarrow> (entries h)(''bytecodeSizeInBytes'' \<mapsto> n,
                                                  ''flags'' \<mapsto> f AND NOT overflowed_flag)),
             small = None \<rparr>"
  using assms
  by (auto simp add: new_header_def normal86_def max_small_size_eq Let_def split: option.splits)

lemma new_header_normal96:
  assumes "n \<le> 32767"
  shows "new_header V96 h original n = h\<lparr>entries := (entries h)(''bytecodeSizeInBytes'' \<mapsto> n)\<rparr>"
  using assms by (simp add: new_header_def)

lemma overflow86_entries:
  "entries (overflow86 h original n) =
     (entries h)(''flags'' \<mapsto> (case entries h ''flags'' of None \<Rightarrow> 0 | Some f \<Rightarrow> f) OR overflowed_flag,
                 ''bytecodeSizeInBytes'' \<mapsto> n)"
  by (simp add: overflow86_def Let_def split: option.splits)

lemma overflow86_small:
  "small (overflow86 h original n) =
     (case small h of
        None \<Rightarrow>
          Some ((entries h |` set snapshot_keys)
                  (''bytecodeSizeInBytes'' \<mapsto> min original 32767,
                   ''flags'' \<mapsto> (case entries h ''flags'' of None \<Rightarrow> 0 | Some f \<Rightarrow> f) OR overflowed_flag))
      | Some sm \<Rightarrow> Some sm)"
  by (auto simp add: overflow86_def Let_def copy_keys_restrict max_small_size_eq restrict_map_def
        snapshot_keys_def fun_eq_iff split: option.splits)

lemma snapshot_after_size:
  "((m |` set snapshot_keys)(''bytecodeSizeInBytes'' \<mapsto> a, ''flags'' \<mapsto> fl)) =
   ((m(''flags'' \<mapsto> fl, ''bytecodeSizeInBytes'' \<mapsto> n)) |` set snapshot_keys)
     (''bytecodeSizeInBytes'' \<mapsto> a)"
  by (auto simp add: fun_eq_iff restrict_map_def snapshot_keys_def)

lemma overflow86_idem: "overflow86 (overflow86 h original n) n n = overflow86 h original n"
proof -
  have "(g OR overflowed_flag) OR overflowed_flag = g OR overflowed_flag" for g
    by (rule flag_or_idem) (rule flag_or)
  then show ?thesis
    by (auto simp add: overflow86_def Let_def split: option.splits)
qed

lemma new_header_idem:
  "new_header v (new_header v h original n) n n = new_header v h original n"
proof (cases "n > 32767")
  case True
  then show ?thesis by (simp add: new_header_overflow overflow86_idem)
next
  case False
  then have le: "n \<le> 32767" by simp
  show ?thesis
  proof (cases v)
    case V86
    show ?thesis
      by (auto simp add: V86 new_header_normal86 le flag_clear_idem fun_eq_iff split: option.splits)
  next
    case V96
    show ?thesis by (simp add: V96 new_header_normal96 le)
  qed
qed

lemma set_params_new_header:
  "set_params (new_header v (set_params h f) original n) f = new_header v (set_params h f) original n"
  by (rule set_params_absorbed) (simp_all add: new_header_other set_params_def)

lemma header_consistent_new_header:
  assumes "header_consistent h"
  shows "header_consistent (new_header v h original n)"
proof (cases "n > 32767")
  case True
  show ?thesis
  proof (cases "small h")
    case None
    then show ?thesis
      by (simp add: new_header_overflow True header_consistent_def overflow86_small
            overflow86_entries overflowed_def flag_or small_ok_def)
  next
    case (Some sm)
    with assms obtain f where f: "entries h ''flags'' = Some f" "f AND overflowed_flag \<noteq> 0"
      and sm: "small_ok h sm"
      by (auto simp add: header_consistent_def overflowed_def split: option.splits)
    from f sm Some show ?thesis
      by (simp add: new_header_overflow True header_consistent_def overflow86_small
            overflow86_entries overflowed_def flag_or_idem small_ok_def split: option.splits)
  qed
next
  case False
  then have le: "n \<le> 32767" by simp
  show ?thesis
  proof (cases v)
    case V86
    show ?thesis
      by (simp add: V86 new_header_normal86 le header_consistent_def overflowed_def flag_clear
            split: option.splits)
  next
    case V96
    from assms show ?thesis
      by (auto simp add: V96 new_header_normal96 le header_consistent_def overflowed_def
            small_ok_def split: option.splits)
  qed
qed

lemma header_consistent_set_params:
  assumes "header_consistent h"
  shows "header_consistent (set_params h f)"
  using assms
  by (auto simp add: header_consistent_def overflowed_def small_ok_def set_params_def
        split: option.splits)

section \<open>The instruction buffer before the copy\<close>

lemma extend_inst_length:
  "length buf \<le> length (extend_inst buf start n) \<and> start + n \<le> int (length (extend_inst buf start n))"
  by (simp add: extend_inst_def)

lemma extend_inst_fixed:
  assumes "start + n \<le> int (length buf)"
  shows "extend_inst buf start n = buf"
  using assms by (simp add: extend_inst_def)

lemma new_buffer_length: "length buf \<le> length (new_buffer v buf start original n)"
  by (cases v) (simp_all add: new_buffer_def extend_inst_length)

lemma new_buffer_covers:
  assumes "0 \<le> start" and "start + original \<le> int (length buf)"
  shows "start + n \<le> int (length (new_buffer v buf start original n))"
  using assms extend_inst_length [of buf start n]
  by (cases v) (auto simp add: new_buffer_def)

lemma new_buffer_again:
  assumes "length b' = length (new_buffer v buf start original n)"
  shows "new_buffer v b' start n n = b'"
proof (cases v)
  case V86
  from assms extend_inst_length [of buf start n] have "start + n \<le> int (length b')"
    by (simp add: V86 new_buffer_def)
  then show ?thesis by (simp add: V86 new_buffer_def extend_inst_fixed)
next
  case V96
  then show ?thesis by (simp add: new_buffer_def)
qed

section \<open>How a call of the function mutator ends\<close>

lemma setFunction_unfold:
  "setFunction v assemble s fid f =
     (if \<not> (fid \<ge> 0 \<and> fid < functionCount (header s)) then Inl (AssertionError, s)
      else
        (case py_index (functionHeaders s) fid of
           Inl e \<Rightarrow> Inl (e, s)
         | Inr h0 \<Rightarrow>
             (case entries h0 ''offset'' of
                None \<Rightarrow> Inl (KeyError, s\<lparr>functionHeaders := (functionHeaders s)[nat fid := set_params h0 f]\<rparr>)
              | Some off \<Rightarrow>
                  (case entries h0 ''bytecodeSizeInBytes'' of
                     None \<Rightarrow> Inl (KeyError, s\<lparr>functionHeaders := (functionHeaders s)[nat fid := set_params h0 f]\<rparr>)
                   | Some sz \<Rightarrow>
                       (case bytecode_of assemble (insts f) of
                          Inl e \<Rightarrow> Inl (e, s\<lparr>functionHeaders := (functionHeaders s)[nat fid := set_params h0 f]\<rparr>)
                        | Inr bc \<Rightarrow>
                            copy_bytecode s (nat fid)
                              (new_header v (set_params h0 f) sz (int (length bc)))
                              (new_buffer v (inst s) (off - instOffset s) sz (int (length bc)))
                              bc (off - instOffset s))))))"
  by (cases v)
     (simp_all add: setFunction_def setFunction86_def setFunction96_def Let_def set_params_keys
        new_header_def new_buffer_def split: sum.splits option.splits)

lemma copy_bytecode_eq:
  "copy_bytecode s i h buf bc start =
     (let s' = s\<lparr>functionHeaders := (functionHeaders s)[i := h],
                  inst := snd (memcpy buf bc start (length bc))\<rparr>
      in case fst (memcpy buf bc start (length bc)) of None \<Rightarrow> Inr s' | Some e \<Rightarrow> Inl (e, s'))"
  by (cases "memcpy buf bc start (length bc)")
     (simp add: copy_bytecode_def Let_def split: option.splits)

lemma state_after_copy_bytecode:
  "state_after (copy_bytecode s i h buf bc start) =
     s\<lparr>functionHeaders := (functionHeaders s)[i := h],
       inst := snd (memcpy buf bc start (length bc))\<rparr>"
  by (simp add: copy_bytecode_eq state_after_def Let_def split: option.splits)

lemma returns_copy_bytecode:
  "returns (copy_bytecode s i h buf bc start) = (fst (memcpy buf bc start (length bc)) = None)"
  by (simp add: copy_bytecode_eq returns_def Let_def split: option.splits)

lemma copy_bytecode_again:
  assumes "length buf' = length buf"
    and "buf' = snd (memcpy buf bc start (length bc))"
    and "s' = state_after (copy_bytecode s i h buf bc start)"
  shows "copy_bytecode s' i h buf' bc start = copy_bytecode s i h buf bc start"
proof -
  have m: "memcpy buf' bc start (length bc) = memcpy buf bc start (length bc)"
    unfolding assms(2) by (rule memcpy_idem)
  have s': "s' = s\<lparr>functionHeaders := (functionHeaders s)[i := h],
                       inst := snd (memcpy buf bc start (length bc))\<rparr>"
    unfolding assms(3) by (rule state_after_copy_bytecode)
  show ?thesis
    unfolding copy_bytecode_eq m s' by simp
qed

text \<open>The three ways a call of the setter ends.\<close>

lemma setFunction_cases:
  obtains
    (rejected) e where
      "\<not> (0 \<le> fid \<and> fid < functionCount (header s) \<and> fid < int (length (functionHeaders s)))"
      "setFunction v assemble s fid f = Inl (e, s)"
  | (early) e where
      "0 \<le> fid" "fid < functionCount (header s)" "fid < int (length (functionHeaders s))"
      "entries (functionHeaders s ! nat fid) ''offset'' = None \<or>
       entries (functionHeaders s ! nat fid) ''bytecodeSizeInBytes'' = None \<or>
       bytecode_of assemble (insts f) = Inl e"
      "setFunction v assemble s fid f =
         Inl (e, s\<lparr>functionHeaders :=
                     (functionHeaders s)[nat fid := set_params (functionHeaders s ! nat fid) f]\<rparr>)"
  | (copied) off sz bc where
      "0 \<le> fid" "fid < functionCount (header s)" "fid < int (length (functionHeaders s))"
      "entries (functionHeaders s ! nat fid) ''offset'' = Some off"
      "entries (functionHeaders s ! nat fid) ''bytecodeSizeInBytes'' = Some sz"
      "bytecode_of assemble (insts f) = Inr bc"
      "setFunction v assemble s fid f =
         copy_bytecode s (nat fid)
           (new_header v (set_params (functionHeaders s ! nat fid) f) sz (int (length bc)))
           (new_buffer v (inst s) (off - instOffset s) sz (int (length bc)))
           bc (off - instOffset s)"
proof (cases "0 \<le> fid \<and> fid < functionCount (header s) \<and> fid < int (length (functionHeaders s))")
  case False
  then have "setFunction v assemble s fid f = Inl (AssertionError, s) \<or>
             setFunction v assemble s fid f = Inl (IndexError, s)"
    by (auto simp add: setFunction_unfold py_index_nonneg)
  with False rejected show ?thesis by blast
next
  case True
  then have idx: "py_index (functionHeaders s) fid = Inr (functionHeaders s ! nat fid)"
    by (simp add: py_index_nonneg)
  show ?thesis
  proof (cases "entries (functionHeaders s ! nat fid) ''offset''")
    case None
    with True idx early show ?thesis by (simp add: setFunction_unfold)
  next
    case off: (Some off)
    show ?thesis
    proof (cases "entries (functionHeaders s ! nat fid) ''bytecodeSizeInBytes''")
      case None
      with True idx off early show ?thesis by (simp add: setFunction_unfold)
    next
      case sz: (Some sz)
      show ?thesis
      proof (cases "bytecode_of assemble (insts f)")
        case (Inl e)
        with True idx off sz early show ?thesis by (simp add: setFunction_unfold)
      next
        case (Inr bc)
        with True idx off sz copied show ?thesis by (simp add: setFunction_unfold)
      qed
    qed
  qed
qed

lemma within_inst_copy:
  assumes "within_inst s h" and "entries h ''offset'' = Some off"
    and "entries h ''bytecodeSizeInBytes'' = Some sz"
  shows "fst (memcpy (new_buffer v (inst s) (off - instOffset s) sz (int (length bc))) bc
                (off - instOffset s) (length bc)) = None"
proof -
  from assms have start: "0 \<le> off - instOffset s"
    and fits: "off - instOffset s + sz \<le> int (length (inst s))"
    by (simp_all add: within_inst_def)
  from new_buffer_covers [OF start fits, of "int (length bc)" v] start
  have "nat (off - instOffset s) + length bc
          \<le> length (new_buffer v (inst s) (off - instOffset s) sz (int (length bc)))"
    by linarith
  from memcpy_in_range [OF start this] show ?thesis by simp
qed

lemma returns_in_range:
  assumes "has_function s fid" and "within_inst s (functionHeaders s ! nat fid)"
    and "bytecode_of assemble (insts f) = Inr bc"
  shows "returns (setFunction v assemble s fid f)"
proof (cases rule: setFunction_cases [of fid s v assemble f])
  case (rejected e)
  with assms(1) show ?thesis by (simp add: has_function_def)
next
  case (early e)
  with assms(1,3) show ?thesis by (auto simp add: has_function_def)
next
  case (copied off sz bc')
  from within_inst_copy [OF assms(2) copied(4,5), of v bc'] copied(7) show ?thesis
    by (simp add: returns_copy_bytecode)
qed

section \<open>The test fixture\<close>

lemma mock_has_function: "has_function mock_obj 0"
  by (simp add: has_function_def mock_obj_def mock_header_def)

lemma mock_within: "within_inst mock_obj mock_header"
  by (simp add: within_inst_def mock_obj_def mock_header_def)

lemma mock_inv_range: "inv_range mock_obj"
  using mock_within by (simp add: inv_range_def mock_obj_def)

lemma mock_inv_overflow: "inv_overflow mock_obj"
  by (simp add: inv_overflow_def mock_obj_def header_consistent_def mock_header_def
        overflowed_def)

lemma mock_index: "py_index (functionHeaders mock_obj) 0 = Inr mock_header"
  by (simp add: py_index_def py_position_def mock_obj_def)

lemma overflowed_has_function: "has_function overflowed_obj 0"
  by (simp add: has_function_def overflowed_obj_def overflowed_header_def mock_obj_def
        mock_header_def)

lemma overflowed_within: "within_inst overflowed_obj (functionHeaders overflowed_obj ! nat 0)"
  by (simp add: within_inst_def overflowed_obj_def overflowed_header_def mock_obj_def
        mock_header_def)


text \<open>
  The overflowed fixture is what \<open>HBC96.setFunction\<close> makes of the fixture with 40000
  bytes \<open>0xFF\<close>.
\<close>

lemma overflowed_obj_reached:
  "setFunction V96 failing_assemble mock_obj 0 (raw_payload (replicate 40000 0xFF)) =
     Inr overflowed_obj"
proof -
  have h: "overflow86 (set_params mock_header (raw_payload (replicate 40000 0xFF))) 100 40000 =
             overflowed_header"
    by (auto simp add: overflow86_def set_params_def raw_payload_def Let_def mock_header_def
          overflowed_header_def copy_keys_restrict overflowed_flag_def max_small_size_def
          fun_eq_iff restrict_map_def snapshot_keys_def)
  have m: "memcpy (replicate 50000 0) (replicate 40000 0xFF) 0 (length (replicate 40000 (0xFF :: int))) =
             (None, replicate 40000 0xFF @ replicate 10000 0)"
    using memcpy_in_range [of 0 "replicate 40000 (0xFF :: int)" "replicate 50000 0"] by simp
  show ?thesis
    using m
    by (simp add: setFunction_unfold mock_index)
       (simp add: mock_obj_def mock_header_def bytecode_of_def raw_payload_def
          new_header_overflow new_buffer_def extend_inst_def copy_bytecode_eq
          overflowed_obj_def h [unfolded mock_header_def raw_payload_def])
qed

section \<open>What the function mutator leaves unchanged\<close>

text \<open>
  C7. Whatever the fid and the payload, and whether the call returns or raises,
  \<open>setFunction\<close> ends the same way for every name in the payload, and leaves the file
  header, the string table, its overflow table and the string storage as they were;
  every function header other than the edited one is unchanged; the \<open>functionName\<close>
  entry of every header, the edited one included, is unchanged; and the instruction
  buffer is at least as long as before.
\<close>

theorem C7_frame:
  "let s' = state_after (setFunction v assemble s fid f) in
     setFunction v assemble s fid (f\<lparr>functionName := name\<rparr>) = setFunction v assemble s fid f \<and>
     header s' = header s \<and>
     stringTableEntries s' = stringTableEntries s \<and>
     stringTableOverflowEntries s' = stringTableOverflowEntries s \<and>
     stringStorage s' = stringStorage s \<and>
     length (functionHeaders s') = length (functionHeaders s) \<and>
     (\<forall>j. j \<noteq> nat fid \<longrightarrow> functionHeaders s' ! j = functionHeaders s ! j) \<and>
     (\<forall>j < length (functionHeaders s).
        entries (functionHeaders s' ! j) ''functionName'' = entries (functionHeaders s ! j) ''functionName'') \<and>
     length (inst s) \<le> length (inst s')"
proof -
  have counts: "set_params h (f\<lparr>functionName := name\<rparr>) = set_params h f" for h
    by (simp add: set_params_def)
  have code: "insts (f\<lparr>functionName := name\<rparr>) = insts f" by simp
  have name: "setFunction v assemble s fid (f\<lparr>functionName := name\<rparr>) =
                setFunction v assemble s fid f"
    unfolding setFunction_unfold counts code by (rule refl)
  show ?thesis
  proof (cases rule: setFunction_cases [of fid s v assemble f])
    case (rejected e)
    then show ?thesis by (simp add: name state_after_def)
  next
    case (early e)
    then show ?thesis
      by (simp add: name state_after_def nth_list_update set_params_keys)
  next
    case (copied off sz bc)
    then show ?thesis
      by (simp add: name state_after_copy_bytecode nth_list_update set_params_keys
            new_header_other memcpy_length new_buffer_length)
  qed
qed

text \<open>
  C7 on a container with two functions: six bytes are written over the first function
  of four bytes, and the header of the second function is as it was.
\<close>

theorem C7_frame_witness:
  "(let s' = state_after (setFunction V86 failing_assemble two_functions 0
                            (raw_payload [9, 9, 9, 9, 9, 9]))
    in header s' = header two_functions \<and>
       stringTableEntries s' = stringTableEntries two_functions \<and>
       stringStorage s' = stringStorage two_functions \<and>
       functionHeaders s' ! 1 = functionHeaders two_functions ! 1 \<and>
       entries (functionHeaders s' ! 0) ''functionName'' = Some 0 \<and>
       8 \<le> length (inst s'))"
proof -
  have len: "length (functionHeaders two_functions) = 2" "length (inst two_functions) = 8"
    and name: "entries (functionHeaders two_functions ! 0) ''functionName'' = Some 0"
    by (simp_all add: two_functions_def mock_header_def)
  from C7_frame [of V86 failing_assemble two_functions 0 "raw_payload [9, 9, 9, 9, 9, 9]" "[]"]
  show ?thesis
    unfolding Let_def len
    using name by (metis nat_0 zero_neq_one zero_less_numeral)
qed

section \<open>The overflow invariant\<close>

lemma list_all_update:
  assumes "list_all P xs" and "P y"
  shows "list_all P (xs[i := y])"
  using assms set_update_subset_insert [of xs i y] by (auto simp add: list_all_iff)

lemma inv_overflow_setFunction:
  assumes "inv_overflow s"
  shows "inv_overflow (state_after (setFunction v assemble s fid f))"
proof (cases rule: setFunction_cases [of fid s v assemble f])
  case (rejected e)
  with assms show ?thesis by (simp add: state_after_def)
next
  case (early e)
  from early(1,3) assms have "header_consistent (functionHeaders s ! nat fid)"
    by (simp add: inv_overflow_def list_all_length)
  with assms early(5) show ?thesis
    by (simp add: state_after_def inv_overflow_def list_all_update header_consistent_set_params)
next
  case (copied off sz bc)
  from copied(1,3) assms have "header_consistent (functionHeaders s ! nat fid)"
    by (simp add: inv_overflow_def list_all_length)
  with assms copied(7) show ?thesis
    by (simp add: state_after_copy_bytecode inv_overflow_def list_all_update
          header_consistent_set_params header_consistent_new_header)
qed

lemma functionHeaders_setString:
  "functionHeaders (state_after (setString INVALID_LENGTH s sid val)) = functionHeaders s"
  by (simp add: setString_def state_after_def split: sum.splits prod.splits option.splits)

lemma inv_overflow_apply_edit:
  assumes "inv_overflow s"
  shows "inv_overflow (apply_edit v assemble INVALID_LENGTH s e)"
proof (cases e)
  case (SetFunction fid f)
  with assms show ?thesis by (simp add: apply_edit_def inv_overflow_setFunction)
next
  case (SetString sid val)
  with assms show ?thesis
    by (simp add: apply_edit_def inv_overflow_def functionHeaders_setString)
qed

text \<open>
  C4. From a container in which every function header has the overflow bit set exactly
  when its \<open>small\<close> backup is present, and every backup holds a size of at most 32767
  and the flags of its header, every sequence of \<open>setFunction\<close> and \<open>setString\<close> calls
  (of either version, returning or raising) leads to a container with the same property.
\<close>

theorem C4_overflow_invariant:
  assumes "inv_overflow s"
  shows "inv_overflow (run_edits v assemble INVALID_LENGTH s es)"
  using assms
proof (induction es arbitrary: s)
  case Nil
  then show ?case by simp
next
  case (Cons e es)
  then show ?case by (simp add: inv_overflow_apply_edit)
qed

text \<open>
  C4 on the fixture: an edit into the overflowed form, a string edit, a call whose
  assembler raises and an edit back to 100 bytes.
\<close>

theorem C4_overflow_invariant_witness:
  "inv_overflow mock_obj \<and>
   inv_overflow
     (run_edits V96 failing_assemble 255 mock_obj
        [SetFunction 0 (raw_payload (replicate 40000 0xFF)),
         SetString 0 [116, 101, 115, 116],
         SetFunction 0 asm_payload,
         SetFunction 0 (raw_payload (replicate 100 0x11))])"
  using C4_overflow_invariant [OF mock_inv_overflow] mock_inv_overflow by blast

section \<open>A call of the function mutator that raises\<close>

text \<open>
  C5 (counterexample). On the fixture, a call whose assembler raises ends with that
  exception in both versions, and the header's \<open>paramCount\<close> is then 7 where it was 1:
  the container is not as it was before the call.
\<close>

theorem C5_partial_update_counterexample:
  "setFunction V86 failing_assemble mock_obj 0 asm_payload =
     Inl (TranslatorError, mock_obj\<lparr>functionHeaders := [set_params mock_header asm_payload]\<rparr>) \<and>
   setFunction V96 failing_assemble mock_obj 0 asm_payload =
     Inl (TranslatorError, mock_obj\<lparr>functionHeaders := [set_params mock_header asm_payload]\<rparr>) \<and>
   entries mock_header ''paramCount'' = Some 1 \<and>
   entries (set_params mock_header asm_payload) ''paramCount'' = Some 7 \<and>
   mock_obj\<lparr>functionHeaders := [set_params mock_header asm_payload]\<rparr> \<noteq> mock_obj"
proof -
  have run: "setFunction v failing_assemble mock_obj 0 asm_payload =
     Inl (TranslatorError, mock_obj\<lparr>functionHeaders := [set_params mock_header asm_payload]\<rparr>)" for v
    by (simp add: setFunction_unfold mock_index)
       (simp add: mock_obj_def mock_header_def bytecode_of_def asm_payload_def failing_assemble_def)
  have old: "entries mock_header ''paramCount'' = Some 1"
    by (simp add: mock_header_def)
  have new: "entries (set_params mock_header asm_payload) ''paramCount'' = Some 7"
    by (simp add: set_params_def asm_payload_def)
  have "functionHeaders (mock_obj\<lparr>functionHeaders := [set_params mock_header asm_payload]\<rparr>)
          \<noteq> functionHeaders mock_obj"
    using old new by (auto simp add: mock_obj_def)
  then have "mock_obj\<lparr>functionHeaders := [set_params mock_header asm_payload]\<rparr> \<noteq> mock_obj"
    by metis
  with run old new show ?thesis by blast
qed

text \<open>
  C5 (amended). On a container whose functions lie within the instruction buffer, a call
  of \<open>setFunction\<close> that raises leaves the container exactly as it was when the fid is
  rejected (by the assertion or by the lookup of the header); a call that raises later
  (a missing \<open>offset\<close> or \<open>bytecodeSizeInBytes\<close> entry, or a failing assembler) has
  already stored the payload's three counts in the function header and leaves everything
  else, the instruction buffer included, as it was.
\<close>

theorem C5_failure_state:
  assumes "setFunction v assemble s fid f = Inl (e, s')"
    and "inv_range s"
  shows "s' = (if 0 \<le> fid \<and> fid < functionCount (header s) \<and> fid < int (length (functionHeaders s))
               then s\<lparr>functionHeaders :=
                        (functionHeaders s)[nat fid := set_params (functionHeaders s ! nat fid) f]\<rparr>
               else s)"
proof (cases rule: setFunction_cases [of fid s v assemble f])
  case (rejected e)
  with assms show ?thesis by auto
next
  case (early e)
  with assms show ?thesis by simp
next
  case (copied off sz bc)
  from copied(1,3) assms(2) have "within_inst s (functionHeaders s ! nat fid)"
    by (simp add: inv_range_def list_all_length)
  from within_inst_copy [OF this copied(4,5)] copied(7)
  have "returns (setFunction v assemble s fid f)"
    by (simp add: returns_copy_bytecode)
  with assms(1) show ?thesis by (simp add: returns_def)
qed

text \<open>C5 (amended) on the same call: only the three counts of the header have changed.\<close>

theorem C5_failure_state_witness:
  "inv_range mock_obj \<and>
   setFunction V96 failing_assemble mock_obj 0 asm_payload =
     Inl (TranslatorError, state_after (setFunction V96 failing_assemble mock_obj 0 asm_payload)) \<and>
   state_after (setFunction V96 failing_assemble mock_obj 0 asm_payload) =
     mock_obj\<lparr>functionHeaders := [set_params mock_header asm_payload]\<rparr>"
proof -
  have run: "setFunction V96 failing_assemble mock_obj 0 asm_payload =
     Inl (TranslatorError, state_after (setFunction V96 failing_assemble mock_obj 0 asm_payload))"
    by (simp add: setFunction_unfold mock_index state_after_def)
       (simp add: mock_obj_def mock_header_def bytecode_of_def asm_payload_def failing_assemble_def)
  from C5_failure_state [OF run mock_inv_range]
  have "state_after (setFunction V96 failing_assemble mock_obj 0 asm_payload) =
          mock_obj\<lparr>functionHeaders := [set_params mock_header asm_payload]\<rparr>"
    by (simp add: mock_obj_def)
  with run mock_inv_range show ?thesis by blast
qed

section \<open>The same call twice\<close>

text \<open>
  C9. A second \<open>setFunction\<close> with the same fid and payload, made on the container the
  first call leaves, ends as the first call ended and leaves that container unchanged:
  in every starting state, for both versions, whether the first call entered or left the
  overflowed form, and also when it raised.
\<close>

theorem C9_idempotent:
  "setFunction v assemble (state_after (setFunction v assemble s fid f)) fid f =
     setFunction v assemble s fid f"
proof (cases rule: setFunction_cases [of fid s v assemble f])
  case (rejected e)
  then show ?thesis by (simp add: state_after_def)
next
  case (early e)
  let ?h = "set_params (functionHeaders s ! nat fid) f"
  let ?s1 = "s\<lparr>functionHeaders := (functionHeaders s)[nat fid := ?h]\<rparr>"
  have idx: "py_index (functionHeaders s) fid = Inr (functionHeaders s ! nat fid)"
    and idx1: "py_index (functionHeaders ?s1) fid = Inr ?h"
    using early(1-3) by (simp_all add: py_index_nonneg)
  have "setFunction v assemble ?s1 fid f = setFunction v assemble s fid f"
    using early(1-4)
    unfolding setFunction_unfold [of v assemble ?s1] setFunction_unfold [of v assemble s] idx idx1
    by (auto simp add: set_params_keys set_params_idem split: option.splits sum.splits)
  with early(5) show ?thesis by (simp add: state_after_def)
next
  case (copied off sz bc)
  let ?i = "nat fid"
  let ?h0 = "functionHeaders s ! ?i"
  let ?start = "off - instOffset s"
  let ?n = "int (length bc)"
  let ?h = "new_header v (set_params ?h0 f) sz ?n"
  let ?buf = "new_buffer v (inst s) ?start sz ?n"
  let ?s1 = "state_after (copy_bytecode s ?i ?h ?buf bc ?start)"
  let ?b1 = "snd (memcpy ?buf bc ?start (length bc))"
  have s1: "?s1 = s\<lparr>functionHeaders := (functionHeaders s)[?i := ?h], inst := ?b1\<rparr>"
    by (rule state_after_copy_bytecode)
  have idx1: "py_index (functionHeaders ?s1) fid = Inr ?h"
    using copied(1-3) by (simp add: py_index_nonneg s1)
  have off1: "entries ?h ''offset'' = Some off"
    by (simp add: new_header_other set_params_keys copied(4))
  have sz1: "entries ?h ''bytecodeSizeInBytes'' = Some ?n"
    by (rule new_header_size)
  have len: "length ?b1 = length ?buf" by (rule memcpy_length)
  have buf1: "new_buffer v (inst ?s1) ?start ?n ?n = ?b1"
    unfolding s1 by (simp add: new_buffer_again [OF len])
  have "setFunction v assemble ?s1 fid f =
          copy_bytecode ?s1 ?i (new_header v (set_params ?h f) ?n ?n) ?b1 bc ?start"
    using copied(1-3,6) buf1
    by (simp add: setFunction_unfold [of v assemble ?s1] idx1 off1 sz1) (simp add: s1)
  also have "\<dots> = copy_bytecode ?s1 ?i ?h ?b1 bc ?start"
    by (simp add: set_params_new_header new_header_idem)
  also have "\<dots> = copy_bytecode s ?i ?h ?buf bc ?start"
    by (rule copy_bytecode_again [OF len refl refl])
  finally show ?thesis by (simp add: copied(7))
qed

section \<open>Size transitions\<close>

text \<open>
  C2. For an in-range fid whose header has an offset and a size \<open>original\<close>, and a payload
  whose bytecode is longer than 32767 bytes, after \<open>setFunction\<close> of either version the
  header has bit 5 of its flags set and its size is the length of the bytecode; if the
  header had no \<open>small\<close> backup, it now has one, which holds the header's entries under
  the ten snapshot keys as they are after the call, except that its size is
  \<open>min original 32767\<close>; in particular its flags are the header's updated flags. The
  call returns when the function lies within the instruction buffer.
\<close>

theorem C2_overflow_transition:
  assumes "has_function s fid"
    and "entries (functionHeaders s ! nat fid) ''bytecodeSizeInBytes'' = Some original"
    and "bytecode_of assemble (insts f) = Inr bc"
    and "32767 < int (length bc)"
  shows "let h = functionHeaders s ! nat fid;
             r = setFunction v assemble s fid f;
             h' = functionHeaders (state_after r) ! nat fid
         in overflowed h' \<and>
            entries h' ''bytecodeSizeInBytes'' = Some (int (length bc)) \<and>
            (small h = None \<longrightarrow>
               (\<exists>sm. small h' = Some sm \<and>
                  sm = (entries h' |` set snapshot_keys)
                         (''bytecodeSizeInBytes'' \<mapsto> min original 32767) \<and>
                  sm ''flags'' = entries h' ''flags'')) \<and>
            (within_inst s h \<longrightarrow> returns r)"
proof (cases rule: setFunction_cases [of fid s v assemble f])
  case (rejected e)
  with assms(1) show ?thesis by (simp add: has_function_def)
next
  case (early e)
  with assms(1,3) show ?thesis by (auto simp add: has_function_def)
next
  case (copied off sz bc')
  let ?h = "functionHeaders s ! nat fid"
  let ?hp = "set_params ?h f"
  let ?h' = "overflow86 ?hp original (int (length bc))"
  from copied(5,6) assms(2,3) have eq: "sz = original" "bc' = bc" by simp_all
  from copied(3) copied(1) have i: "nat fid < length (functionHeaders s)" by simp
  have r: "setFunction v assemble s fid f =
             copy_bytecode s (nat fid) ?h'
               (new_buffer v (inst s) (off - instOffset s) original (int (length bc)))
               bc (off - instOffset s)"
    using copied(7) assms(4) by (simp add: eq new_header_overflow)
  have h': "functionHeaders (state_after (setFunction v assemble s fid f)) ! nat fid = ?h'"
    by (simp add: r state_after_copy_bytecode i)
  have ov: "overflowed ?h'"
    by (simp add: overflowed_def overflow86_entries flag_or)
  have size: "entries ?h' ''bytecodeSizeInBytes'' = Some (int (length bc))"
    by (simp add: overflow86_entries)
  define fl where
    "fl = (case entries ?hp ''flags'' of None \<Rightarrow> 0 | Some g \<Rightarrow> g) OR overflowed_flag"
  have ent: "entries ?h' = (entries ?hp)(''flags'' \<mapsto> fl,
                                         ''bytecodeSizeInBytes'' \<mapsto> int (length bc))"
    by (simp add: overflow86_entries fl_def)
  have sm: "small ?h' = Some ((entries ?h' |` set snapshot_keys)
                               (''bytecodeSizeInBytes'' \<mapsto> min original 32767))"
    if "small ?h = None"
  proof -
    from that have "small ?h' = Some ((entries ?hp |` set snapshot_keys)
                      (''bytecodeSizeInBytes'' \<mapsto> min original 32767, ''flags'' \<mapsto> fl))"
      by (simp add: overflow86_small set_params_small fl_def)
    then show ?thesis
      unfolding ent by (simp only: snapshot_after_size [symmetric])
  qed
  have fl: "((entries ?h' |` set snapshot_keys)
               (''bytecodeSizeInBytes'' \<mapsto> min original 32767)) ''flags'' = entries ?h' ''flags''"
    by (simp add: snapshot_keys_def)
  have ret: "returns (setFunction v assemble s fid f)" if "within_inst s ?h"
    using within_inst_copy [OF that copied(4) assms(2), of v bc]
    by (simp add: r returns_copy_bytecode)
  from ov size sm fl ret show ?thesis
    unfolding Let_def h' by blast
qed

text \<open>
  C2 on scenario 3 of the spec (\<open>test_15_bit_boundary_over\<close>): the fixture's function
  of 100 bytes is given 32768 bytes \<open>0x88\<close>.
\<close>

theorem C2_overflow_transition_witness:
  "has_function mock_obj 0 \<and>
   entries (functionHeaders mock_obj ! nat 0) ''bytecodeSizeInBytes'' = Some 100 \<and>
   bytecode_of failing_assemble (insts (raw_payload (replicate 32768 0x88))) =
     Inr (replicate 32768 0x88) \<and>
   32767 < int (length (replicate 32768 (0x88 :: int))) \<and>
   within_inst mock_obj (functionHeaders mock_obj ! nat 0) \<and>
   (let r = setFunction V96 failing_assemble mock_obj 0 (raw_payload (replicate 32768 0x88));
        h' = functionHeaders (state_after r) ! nat 0
    in returns r \<and> overflowed h' \<and>
       entries h' ''bytecodeSizeInBytes'' = Some 32768 \<and>
       (\<exists>sm. small h' = Some sm \<and> sm ''bytecodeSizeInBytes'' = Some 100 \<and>
             sm ''flags'' = entries h' ''flags''))"
proof -
  have size: "entries (functionHeaders mock_obj ! nat 0) ''bytecodeSizeInBytes'' = Some 100"
    by (simp add: mock_obj_def mock_header_def)
  have bc: "bytecode_of failing_assemble (insts (raw_payload (replicate 32768 0x88))) =
              Inr (replicate 32768 0x88)"
    by (simp add: bytecode_of_def raw_payload_def)
  have len: "32767 < int (length (replicate 32768 (0x88 :: int)))" by simp
  have within: "within_inst mock_obj (functionHeaders mock_obj ! nat 0)"
    using mock_within by (simp add: mock_obj_def)
  have fresh: "small (functionHeaders mock_obj ! nat 0) = None"
    by (simp add: mock_obj_def mock_header_def)
  from C2_overflow_transition [OF mock_has_function size bc len, of V96] within fresh
  have "let r = setFunction V96 failing_assemble mock_obj 0 (raw_payload (replicate 32768 0x88));
            h' = functionHeaders (state_after r) ! nat 0
        in returns r \<and> overflowed h' \<and>
           entries h' ''bytecodeSizeInBytes'' = Some 32768 \<and>
           (\<exists>sm. small h' = Some sm \<and> sm ''bytecodeSizeInBytes'' = Some 100 \<and>
                 sm ''flags'' = entries h' ''flags'')"
    by (auto simp add: Let_def)
  with mock_has_function size bc len within show ?thesis by blast
qed

text \<open>What the two versions do with a new size of at most 32767.\<close>

lemma normal_transition:
  assumes "has_function s fid"
    and "bytecode_of assemble (insts f) = Inr bc"
    and "int (length bc) \<le> 32767"
  shows "functionHeaders (state_after (setFunction v assemble s fid f)) ! nat fid =
           new_header v (set_params (functionHeaders s ! nat fid) f)
             (case entries (functionHeaders s ! nat fid) ''bytecodeSizeInBytes'' of Some sz \<Rightarrow> sz | None \<Rightarrow> 0)
             (int (length bc))"
proof (cases rule: setFunction_cases [of fid s v assemble f])
  case (rejected e)
  with assms(1) show ?thesis by (simp add: has_function_def)
next
  case (early e)
  with assms(1,2) show ?thesis by (auto simp add: has_function_def)
next
  case (copied off sz bc')
  from copied(6) assms(2) have eq: "bc' = bc" by simp
  from copied(3) copied(1) have i: "nat fid < length (functionHeaders s)" by simp
  show ?thesis
    by (simp add: copied(7) state_after_copy_bytecode i eq copied(5))
qed

lemma normal_transition_hbc86:
  assumes "has_function s fid"
    and "bytecode_of assemble (insts f) = Inr bc"
    and "int (length bc) \<le> 32767"
  shows "let h' = functionHeaders (state_after (setFunction V86 assemble s fid f)) ! nat fid
         in entries h' ''bytecodeSizeInBytes'' = Some (int (length bc)) \<and>
            \<not> overflowed h' \<and> small h' = None"
  using assms(3)
  by (simp add: normal_transition [OF assms] new_header_normal86 overflowed_def
        flag_clear Let_def split: option.splits)

lemma normal_transition_hbc96:
  assumes "has_function s fid"
    and "bytecode_of assemble (insts f) = Inr bc"
    and "int (length bc) \<le> 32767"
  shows "let h = functionHeaders s ! nat fid;
             h' = functionHeaders (state_after (setFunction V96 assemble s fid f)) ! nat fid
         in entries h' ''bytecodeSizeInBytes'' = Some (int (length bc)) \<and>
            entries h' ''flags'' = entries h ''flags'' \<and> small h' = small h"
  using assms(3)
  by (simp add: normal_transition [OF assms] new_header_normal96 set_params_def Let_def)

text \<open>
  C1 (as the code has it). The second step of \<open>test_overflow_flag_clearing\<close>: on the
  overflowed fixture, \<open>setFunction\<close> with 100 bytes \<open>0x11\<close>. \<open>HBC96\<close> stores the size
  and leaves bit 5 of the flags set and the \<open>small\<close> backup in place, where the claim
  (and the test) have the bit cleared and the backup deleted; \<open>HBC86\<close> clears the bit
  and deletes the backup.
\<close>

theorem C1_hbc96_keeps_overflow:
  "(let r = setFunction V96 failing_assemble overflowed_obj 0 (raw_payload (replicate 100 0x11));
        h' = functionHeaders (state_after r) ! nat 0
    in returns r \<and>
       entries h' ''bytecodeSizeInBytes'' = Some 100 \<and>
       entries h' ''flags'' = Some 32 \<and> overflowed h' \<and> small h' \<noteq> None) \<and>
   (let r = setFunction V86 failing_assemble overflowed_obj 0 (raw_payload (replicate 100 0x11));
        h' = functionHeaders (state_after r) ! nat 0
    in returns r \<and>
       entries h' ''bytecodeSizeInBytes'' = Some 100 \<and>
       entries h' ''flags'' = Some 0 \<and> \<not> overflowed h' \<and> small h' = None)"
proof -
  have bc: "bytecode_of failing_assemble (insts (raw_payload (replicate 100 0x11))) =
              Inr (replicate 100 0x11)"
    by (simp add: bytecode_of_def raw_payload_def)
  have len: "int (length (replicate 100 (0x11 :: int))) \<le> 32767" by simp
  have before: "entries (functionHeaders overflowed_obj ! nat 0) ''flags'' = Some 32"
    "small (functionHeaders overflowed_obj ! nat 0) \<noteq> None"
    by (simp_all add: overflowed_obj_def overflowed_header_def)
  have ret: "returns (setFunction v failing_assemble overflowed_obj 0 (raw_payload (replicate 100 0x11)))" for v
    by (rule returns_in_range [OF overflowed_has_function overflowed_within bc])
  have flag: "(32 :: int) AND overflowed_flag \<noteq> 0" "(32 :: int) AND NOT overflowed_flag = 0"
    by (simp_all add: overflowed_flag_def)
  have h86: "entries (functionHeaders (state_after
               (setFunction V86 failing_assemble overflowed_obj 0
                  (raw_payload (replicate 100 0x11)))) ! nat 0) ''flags'' = Some 0"
    using before(1) flag(2) normal_transition [OF overflowed_has_function bc len, of V86]
    by (simp add: new_header_normal86 set_params_def)
  from normal_transition_hbc96 [OF overflowed_has_function bc len] before ret [of V96] flag(1)
  have v96: "let r = setFunction V96 failing_assemble overflowed_obj 0
                       (raw_payload (replicate 100 0x11));
                 h' = functionHeaders (state_after r) ! nat 0
             in returns r \<and>
                entries h' ''bytecodeSizeInBytes'' = Some 100 \<and>
                entries h' ''flags'' = Some 32 \<and> overflowed h' \<and> small h' \<noteq> None"
    by (simp add: Let_def overflowed_def)
  from normal_transition_hbc86 [OF overflowed_has_function bc len] h86 ret [of V86]
  have v86: "let r = setFunction V86 failing_assemble overflowed_obj 0
                       (raw_payload (replicate 100 0x11));
                 h' = functionHeaders (state_after r) ! nat 0
             in returns r \<and>
                entries h' ''bytecodeSizeInBytes'' = Some 100 \<and>
                entries h' ''flags'' = Some 0 \<and> \<not> overflowed h' \<and> small h' = None"
    by (simp add: Let_def)
  from v96 v86 show ?thesis by blast
qed

section \<open>The string mutator\<close>






text \<open>
  Two calls with a value of at most \<open>L\<close> characters that do not return: the bytes of the
  value end past the storage (the copy raises after the bytes that fit), and the value
  has a surrogate, which has no UTF-8 encoding.
\<close>

lemma setString_past_end:
  "setString 255 mock_obj 0 [0xE9, 0xE9, 0xE9, 0xE9] =
     Inl (IndexError, mock_obj\<lparr>stringStorage := [195, 169, 195, 169]\<rparr>)"
  by (simp add: utf8_char_def setString_def mock_obj_def
        py_index_def py_position_def string_bytes_def resolve_slot_def memcpy_def
        py_setitem_def)

lemma setString_surrogate:
  "setString 255 mock_obj 0 [0xD800] = Inl (UnicodeEncodeError, mock_obj)"
  by (simp add: utf8_char_def setString_def mock_obj_def
        py_index_def py_position_def string_bytes_def resolve_slot_def)

end
